theory Spec2Isabelle
  imports Main "HOL-Library.AList"
begin

section \<open>Python values\<close>

text \<open>
  A Python \<open>str\<close> is a sequence of Unicode code points; \<open>strip\<close> and \<open>replace\<close> work on
  code points, so a string is a list of code points here. \<open>lit\<close> embeds an ASCII literal.
\<close>

type_synonym pystr = "nat list"

definition lit :: "string \<Rightarrow> pystr" where
  "lit s = map of_char s"

text \<open>
  What \<open>json.load\<close> returns: \<open>None\<close>, \<open>bool\<close>, \<open>int\<close>, \<open>float\<close> (kept as a decimal
  mantissa and exponent), \<open>str\<close>, \<open>list\<close> and \<open>dict\<close>. A \<open>dict\<close> is an association list
  in insertion order; Python keeps its keys unique.
\<close>

datatype json =
    JNull
  | JBool bool
  | JInt int
  | JFloat int int
  | JStr pystr
  | JArr "json list"
  | JObj "(pystr \<times> json) list"

type_synonym dict = "(pystr \<times> json) list"

datatype exn =
    ValueError pystr
  | KeyError pystr
  | TypeError
  | ReError
  | ClientError pystr
  | BadFile pystr

text \<open>\<open>bool(v)\<close>: the truth value Python gives a decoded JSON value.\<close>

fun truthy :: "json \<Rightarrow> bool" where
  "truthy JNull = False"
| "truthy (JBool b) = b"
| "truthy (JInt n) = (n \<noteq> 0)"
| "truthy (JFloat m e) = (m \<noteq> 0)"
| "truthy (JStr s) = (s \<noteq> [])"
| "truthy (JArr xs) = (xs \<noteq> [])"
| "truthy (JObj kvs) = (kvs \<noteq> [])"

fun isinstance_dict :: "json \<Rightarrow> bool" where
  "isinstance_dict (JObj kvs) = True"
| "isinstance_dict v = False"

text \<open>\<open>d[k] = v\<close> keeps the position of a key already present and appends a new one.\<close>

definition setitem :: "dict \<Rightarrow> pystr \<Rightarrow> json \<Rightarrow> dict" where
  "setitem d k v = AList.update k v d"

text \<open>\<open>d.update(other)\<close> for a dict \<open>other\<close>, and \<open>dict(items)\<close> for a list of pairs.\<close>

definition dict_update :: "dict \<Rightarrow> dict \<Rightarrow> dict" where
  "dict_update d other = fold (\<lambda>(k, v) acc. setitem acc k v) other d"

definition py_dict :: "(pystr \<times> json) list \<Rightarrow> dict" where
  "py_dict items = dict_update [] items"

text \<open>\<open>d.get(k)\<close>: \<open>None\<close> when the key is missing.\<close>

definition dict_get :: "dict \<Rightarrow> pystr \<Rightarrow> json" where
  "dict_get d k = (case map_of d k of None \<Rightarrow> JNull | Some v \<Rightarrow> v)"

section \<open>Chunker\<close>

text \<open>
  \<^verbatim>\<open>
  def chunk_dict(data: dict, chunk_size: int):
      items = list(data.items())
      for i in range(0, len(items), chunk_size):
          yield dict(items[i:i + chunk_size])
  \<close>
  The three scripts carry the same function. \<open>range\<close> raises \<open>ValueError\<close> for a step of
  zero and is empty for a negative step; \<open>chunks_from\<close> is the loop for a positive step.
\<close>

function chunks_from :: "(pystr \<times> json) list \<Rightarrow> nat \<Rightarrow> nat \<Rightarrow> dict list" where
  "chunks_from items n i =
     (if n = 0 \<or> length items \<le> i then []
      else py_dict (take n (drop i items)) # chunks_from items n (i + n))"
  by pat_completeness auto
termination
  by (relation "measure (\<lambda>(items, n, i). length items - i)") auto

declare chunks_from.simps [simp del]

definition chunk_dict :: "dict \<Rightarrow> int \<Rightarrow> exn + dict list" where
  "chunk_dict data chunk_size =
     (if chunk_size = 0 then Inl (ValueError (lit ''range() arg 3 must not be zero''))
      else if chunk_size < 0 then Inr []
      else Inr (chunks_from data (nat chunk_size) 0))"

section \<open>Strings and paths\<close>

definition startswith :: "pystr \<Rightarrow> pystr \<Rightarrow> bool" where
  "startswith s p = (take (length p) s = p)"

definition endswith :: "pystr \<Rightarrow> pystr \<Rightarrow> bool" where
  "endswith s p = (length p \<le> length s \<and> drop (length s - length p) s = p)"

text \<open>
  The code points \<open>str.strip()\<close> removes: the ASCII controls \<open>\t \n \v \f \r\<close> and
  \<open>0x1c..0x1f\<close>, the space, and the Unicode spaces and separators.
\<close>

definition is_space :: "nat \<Rightarrow> bool" where
  "is_space c =
     (c \<in> set [9, 10, 11, 12, 13, 28, 29, 30, 31, 32, 133, 160, 5760,
                8232, 8233, 8239, 8287, 12288]
      \<or> (8192 \<le> c \<and> c \<le> 8202))"

definition strip :: "pystr \<Rightarrow> pystr" where
  "strip s = rev (dropWhile is_space (rev (dropWhile is_space s)))"

text \<open>\<open>s.lstrip(chars)\<close> and \<open>s.rstrip(chars)\<close> remove code points of the set \<open>chars\<close>.\<close>

definition lstrip_chars :: "pystr \<Rightarrow> pystr \<Rightarrow> pystr" where
  "lstrip_chars s chars = dropWhile (\<lambda>c. c \<in> set chars) s"

definition rstrip_chars :: "pystr \<Rightarrow> pystr \<Rightarrow> pystr" where
  "rstrip_chars s chars = rev (dropWhile (\<lambda>c. c \<in> set chars) (rev s))"

text \<open>\<open>s.replace(old, new)\<close> for a single code point \<open>old\<close> and a single code point \<open>new\<close>.\<close>

definition replace_char :: "nat \<Rightarrow> nat \<Rightarrow> pystr \<Rightarrow> pystr" where
  "replace_char old new s = map (\<lambda>c. if c = old then new else c) s"

text \<open>\<open>str(n)\<close> of a natural number.\<close>

fun str_nat :: "nat \<Rightarrow> pystr" where
  "str_nat n = (if n < 10 then [48 + n] else str_nat (n div 10) @ [48 + n mod 10])"

declare str_nat.simps [simp del]

text \<open>\<open>os.path.join(a, b)\<close> on POSIX: an absolute \<open>b\<close> replaces \<open>a\<close>.\<close>

definition path_join :: "pystr \<Rightarrow> pystr \<Rightarrow> pystr" where
  "path_join a b =
     (if b \<noteq> [] \<and> hd b = 47 then b
      else if a = [] \<or> last a = 47 then a @ b
      else a @ [47] @ b)"

section \<open>The world outside: files, console, Translation Client\<close>

text \<open>
  A file holds what was dumped into it: a JSON value (\<open>json.dump\<close>, read back by
  \<open>json.load\<close>), the text of an exception (\<open>str(e)\<close>) or a raw response. \<open>ops\<close> is the
  sequence of file operations in the order performed, \<open>console\<close> the outcome messages
  printed (progress messages are left out), \<open>calls\<close> the number of requests sent to the
  Translation Client so far.
\<close>

datatype content = Json json | ErrorText exn | RawText pystr

datatype fsop = Write pystr content | Remove pystr | Makedirs pystr

datatype msg =
    SkippingChunk pystr nat nat exn
  | Saved pystr
  | TempRemoved pystr
  | NoDataSaved pystr
  | NoTranslationNeeded pystr
  | ChunkError pystr exn
  | Synced pystr
  | CleanedUp
  | NotFound pystr
  | CouldNotParse pystr
  | UpdatedWritten pystr
  | NoIssues pystr

record world =
  files :: "pystr \<Rightarrow> content option"
  ops :: "fsop list"
  console :: "msg list"
  calls :: nat

definition write_file :: "world \<Rightarrow> pystr \<Rightarrow> content \<Rightarrow> world" where
  "write_file w p f = w\<lparr>files := (files w)(p \<mapsto> f), ops := ops w @ [Write p f]\<rparr>"

definition remove_file :: "world \<Rightarrow> pystr \<Rightarrow> world" where
  "remove_file w p = w\<lparr>files := (files w)(p := None), ops := ops w @ [Remove p]\<rparr>"

definition makedirs :: "world \<Rightarrow> pystr \<Rightarrow> world" where
  "makedirs w p = w\<lparr>ops := ops w @ [Makedirs p]\<rparr>"

definition print :: "world \<Rightarrow> msg \<Rightarrow> world" where
  "print w m = w\<lparr>console := console w @ [m]\<rparr>"

text \<open>
  \<open>json.load\<close> of a String Table or Locale File. Both are JSON objects by their format;
  a missing file or any other content is reported as \<open>BadFile\<close>.
\<close>

definition load_dict :: "world \<Rightarrow> pystr \<Rightarrow> exn + dict" where
  "load_dict w p =
     (case files w p of
        Some (Json (JObj d)) \<Rightarrow> Inr d
      | _ \<Rightarrow> Inl (BadFile p))"

text \<open>
  What the scripts take from outside. \<open>llm n req\<close> is the Translation Client's answer to
  the \<open>n\<close>-th request of the run: the text of the first choice, or the exception raised
  while getting it. \<open>loads\<close> is \<open>json.loads\<close> (\<open>None\<close> for \<open>JSONDecodeError\<close>).
  \<open>update_seq\<close> is \<open>dict.update\<close> applied to a non-empty list (Python reads it as a
  sequence of pairs, and may raise after it has inserted some of them). \<open>re_engine\<close> is
  the substitution \<open>re.sub\<close> performs with a pattern that compiled.
\<close>

datatype request = Translate pystr dict | Review pystr dict dict

datatype rx =
    Eps
  | Chr nat
  | Dot
  | NotChr nat
  | Cat rx rx
  | Alt rx rx
  | Opt rx
  | StarLazy rx
  | Grp rx
  | Lookbehind rx

record env =
  llm :: "nat \<Rightarrow> request \<Rightarrow> exn + pystr"
  loads :: "pystr \<Rightarrow> json option"
  update_seq :: "dict \<Rightarrow> json \<Rightarrow> dict \<times> exn option"
  re_engine :: "rx \<Rightarrow> (pystr \<Rightarrow> pystr) \<Rightarrow> pystr \<Rightarrow> pystr"

text \<open>
  \<open>d.update(x)\<close> for a decoded JSON value \<open>x\<close>: the new dict, and the exception if one
  was raised. A number, a boolean and \<open>None\<close> are not iterable; a non-empty string
  iterates over one-character strings, which are not pairs; an empty string and an empty
  list add nothing.
\<close>

fun py_update :: "env \<Rightarrow> dict \<Rightarrow> json \<Rightarrow> dict \<times> exn option" where
  "py_update E d (JObj other) = (dict_update d other, None)"
| "py_update E d (JArr []) = (d, None)"
| "py_update E d (JArr (x # xs)) = update_seq E d (JArr (x # xs))"
| "py_update E d (JStr []) = (d, None)"
| "py_update E d (JStr (c # cs)) = (d, Some (ValueError (c # cs)))"
| "py_update E d v = (d, Some TypeError)"

section \<open>Response Normalizer of the bulk and sync scripts\<close>

text \<open>
  \<^verbatim>\<open>
  content = response.choices[0].message.content.strip()
  if content.startswith("```json"):
      content = content.lstrip("```json").strip()
  elif content.startswith("```"):
      content = content.lstrip("```").strip()
  if content.endswith("```"):
      content = content.rstrip("```").strip()
  \<close>
\<close>

definition strip_fences :: "pystr \<Rightarrow> pystr" where
  "strip_fences raw =
     (let content = strip raw;
          content =
            (if startswith content (lit ''```json'')
               then strip (lstrip_chars content (lit ''```json''))
             else if startswith content (lit ''```'')
               then strip (lstrip_chars content (lit ''```''))
             else content)
      in if endswith content (lit ''```'')
           then strip (rstrip_chars content (lit ''```''))
         else content)"

text \<open>
  \<open>translate_chunk\<close> of \<open>translate.py\<close> and of \<open>translation_sync.py\<close> (they differ in
  their messages only): the \<open>n\<close>-th request, then (\<open>decode_translation\<close>) the fences and
  \<open>json.loads\<close>; a decode error is raised again as \<open>ValueError\<close>.
\<close>

definition decode_translation :: "env \<Rightarrow> pystr \<Rightarrow> exn + json" where
  "decode_translation E raw =
     (let content = strip_fences raw
      in case loads E content of
           None \<Rightarrow> Inl (ValueError content)
         | Some translated_chunk \<Rightarrow> Inr translated_chunk)"

definition translate_chunk :: "env \<Rightarrow> nat \<Rightarrow> dict \<Rightarrow> pystr \<Rightarrow> exn + json" where
  "translate_chunk E n chunk target_language =
     (case llm E n (Translate target_language chunk) of
        Inl e \<Rightarrow> Inl e
      | Inr raw \<Rightarrow> decode_translation E raw)"

text \<open>A loop over a list whose body may raise: the first exception ends it.\<close>

fun for_each :: "('a \<Rightarrow> world \<Rightarrow> exn + world) \<Rightarrow> 'a list \<Rightarrow> world \<Rightarrow> exn + world" where
  "for_each body [] w = Inr w"
| "for_each body (x # xs) w =
     (case body x w of Inl e \<Rightarrow> Inl e | Inr w' \<Rightarrow> for_each body xs w')"

section \<open>Bulk translation: \<open>translate_file\<close>\<close>

definition out_path :: "pystr \<Rightarrow> pystr \<Rightarrow> pystr" where
  "out_path folder lang = path_join folder (lang @ lit ''.json'')"

definition temp_path :: "pystr \<Rightarrow> pystr \<Rightarrow> pystr" where
  "temp_path folder lang = path_join folder (lang @ lit ''.temp.json'')"

definition error_log_path :: "pystr \<Rightarrow> pystr \<Rightarrow> nat \<Rightarrow> pystr" where
  "error_log_path folder lang idx =
     path_join folder (lang @ lit ''_error_chunk_'' @ str_nat (idx + 1) @ lit ''.log'')"

text \<open>The \<open>except\<close> branch of the chunk loop: a message and an error log, then \<open>continue\<close>.\<close>

definition skip_chunk :: "world \<Rightarrow> pystr \<Rightarrow> pystr \<Rightarrow> nat \<Rightarrow> nat \<Rightarrow> exn \<Rightarrow> world" where
  "skip_chunk w folder lang idx n_chunks e =
     write_file (print w (SkippingChunk lang (idx + 1) n_chunks e))
       (error_log_path folder lang idx) (ErrorText e)"

text \<open>
  The chunk loop of \<open>translate_file\<close>. Everything in the \<open>try\<close> block is guarded: the
  request, the decoding, and \<open>translated_data.update\<close>.
\<close>

fun translate_file_chunks ::
  "env \<Rightarrow> pystr \<Rightarrow> pystr \<Rightarrow> nat \<Rightarrow> (nat \<times> dict) list \<Rightarrow> world \<Rightarrow> dict \<Rightarrow> world \<times> dict" where
  "translate_file_chunks E folder lang n_chunks [] w translated_data = (w, translated_data)"
| "translate_file_chunks E folder lang n_chunks ((idx, chunk) # rest) w translated_data =
     (let w1 = w\<lparr>calls := Suc (calls w)\<rparr>
      in case translate_chunk E (calls w) chunk lang of
           Inl e \<Rightarrow>
             translate_file_chunks E folder lang n_chunks rest
               (skip_chunk w1 folder lang idx n_chunks e) translated_data
         | Inr translated_chunk \<Rightarrow>
             (case py_update E translated_data translated_chunk of
                (td, Some e) \<Rightarrow>
                  translate_file_chunks E folder lang n_chunks rest
                    (skip_chunk w1 folder lang idx n_chunks e) td
              | (td, None) \<Rightarrow>
                  translate_file_chunks E folder lang n_chunks rest
                    (write_file w1 (temp_path folder lang) (Json (JObj td))) td))"

text \<open>What \<open>translate_file\<close> does after the chunk loop of one locale.\<close>

definition finish_file :: "pystr \<Rightarrow> pystr \<Rightarrow> world \<Rightarrow> dict \<Rightarrow> world" where
  "finish_file folder lang w translated_data =
     (if translated_data \<noteq> [] then
        (let w2 = print (write_file w (out_path folder lang) (Json (JObj translated_data)))
                    (Saved lang)
         in if files w2 (temp_path folder lang) \<noteq> None
              then print (remove_file w2 (temp_path folder lang)) (TempRemoved lang)
            else w2)
      else print w (NoDataSaved lang))"

definition translate_file_lang ::
  "env \<Rightarrow> dict \<Rightarrow> pystr \<Rightarrow> int \<Rightarrow> pystr \<Rightarrow> world \<Rightarrow> exn + world" where
  "translate_file_lang E original_data folder chunk_size lang w =
     (case chunk_dict original_data chunk_size of
        Inl e \<Rightarrow> Inl e
      | Inr chunks \<Rightarrow>
          (case translate_file_chunks E folder lang (length chunks) (enumerate 0 chunks) w [] of
             (w1, translated_data) \<Rightarrow> Inr (finish_file folder lang w1 translated_data)))"

definition translate_file ::
  "env \<Rightarrow> pystr \<Rightarrow> pystr \<Rightarrow> pystr list \<Rightarrow> int \<Rightarrow> world \<Rightarrow> exn + world" where
  "translate_file E input_file output_base_folder target_languages chunk_size w =
     (case load_dict w input_file of
        Inl e \<Rightarrow> Inl e
      | Inr original_data \<Rightarrow>
          for_each (translate_file_lang E original_data output_base_folder chunk_size)
            target_languages (makedirs w output_base_folder))"

section \<open>Sync Planner and \<open>translate_sync\<close>\<close>

text \<open>
  \<^verbatim>\<open>
  updates = {k: v for k, v in en_data.items() if isinstance(v, dict) and v.get("update")}
  new_keys = {k: v for k, v in en_data.items() if k not in updates and not isinstance(v, dict)}
  \<close>
\<close>

fun is_update :: "json \<Rightarrow> bool" where
  "is_update (JObj d) = truthy (dict_get d (lit ''update''))"
| "is_update v = False"

definition updates_of :: "dict \<Rightarrow> dict" where
  "updates_of en_data = py_dict (filter (\<lambda>(k, v). is_update v) en_data)"

definition new_keys_of :: "dict \<Rightarrow> dict" where
  "new_keys_of en_data =
     py_dict (filter (\<lambda>(k, v). map_of (updates_of en_data) k = None \<and> \<not> isinstance_dict v)
                en_data)"

text \<open>
  \<^verbatim>\<open>
  for key, value in new_keys.items():
      if key not in target_data:
          to_translate[key] = value
  for key, update in updates.items():
      if key in en_data:
          to_translate[key] = update["text"] if isinstance(update, dict) else update
  \<close>
  \<open>update["text"]\<close> raises \<open>KeyError\<close> when the record has no such field.
\<close>

fun plan_new :: "dict \<Rightarrow> dict \<Rightarrow> dict \<Rightarrow> dict" where
  "plan_new target_data [] to_translate = to_translate"
| "plan_new target_data ((key, v) # rest) to_translate =
     plan_new target_data rest
       (if map_of target_data key = None then setitem to_translate key v else to_translate)"

fun plan_updates :: "dict \<Rightarrow> dict \<Rightarrow> dict \<Rightarrow> exn + dict" where
  "plan_updates en_data [] to_translate = Inr to_translate"
| "plan_updates en_data ((key, upd) # rest) to_translate =
     (if map_of en_data key \<noteq> None then
        (case upd of
           JObj d \<Rightarrow>
             (case map_of d (lit ''text'') of
                None \<Rightarrow> Inl (KeyError (lit ''text''))
              | Some t \<Rightarrow> plan_updates en_data rest (setitem to_translate key t))
         | _ \<Rightarrow> plan_updates en_data rest (setitem to_translate key upd))
      else plan_updates en_data rest to_translate)"

definition work_set :: "dict \<Rightarrow> dict \<Rightarrow> exn + dict" where
  "work_set en_data target_data =
     plan_updates en_data (updates_of en_data) (plan_new target_data (new_keys_of en_data) [])"

text \<open>The chunk loop of \<open>translate_sync\<close>: a failed chunk leaves a message only.\<close>

fun translate_sync_chunks ::
  "env \<Rightarrow> pystr \<Rightarrow> dict list \<Rightarrow> world \<Rightarrow> dict \<Rightarrow> world \<times> dict" where
  "translate_sync_chunks E lang [] w translated_data = (w, translated_data)"
| "translate_sync_chunks E lang (chunk # rest) w translated_data =
     (let w1 = w\<lparr>calls := Suc (calls w)\<rparr>
      in case translate_chunk E (calls w) chunk lang of
           Inl e \<Rightarrow> translate_sync_chunks E lang rest (print w1 (ChunkError lang e)) translated_data
         | Inr result \<Rightarrow>
             (case py_update E translated_data result of
                (td, Some e) \<Rightarrow> translate_sync_chunks E lang rest (print w1 (ChunkError lang e)) td
              | (td, None) \<Rightarrow> translate_sync_chunks E lang rest w1 td))"

definition translate_sync_lang ::
  "env \<Rightarrow> dict \<Rightarrow> pystr \<Rightarrow> int \<Rightarrow> pystr \<Rightarrow> world \<Rightarrow> exn + world" where
  "translate_sync_lang E en_data output_folder chunk_size lang w =
     (case (if files w (out_path output_folder lang) \<noteq> None
              then load_dict w (out_path output_folder lang) else Inr []) of
        Inl e \<Rightarrow> Inl e
      | Inr target_data \<Rightarrow>
          (case work_set en_data target_data of
             Inl e \<Rightarrow> Inl e
           | Inr to_translate \<Rightarrow>
               if to_translate = [] then Inr (print w (NoTranslationNeeded lang))
               else
                 (case chunk_dict to_translate chunk_size of
                    Inl e \<Rightarrow> Inl e
                  | Inr chunks \<Rightarrow>
                      (case translate_sync_chunks E lang chunks w [] of
                         (w1, translated_data) \<Rightarrow>
                           Inr (print
                                 (write_file w1 (out_path output_folder lang)
                                    (Json (JObj (dict_update target_data translated_data))))
                                 (Synced lang))))))"



section \<open>Quality check: \<open>translation_checker.py\<close>\<close>

definition TRANSLATION_FOLDER :: pystr where
  "TRANSLATION_FOLDER = lit ''messages''"

text \<open>
  \<^verbatim>\<open>
  if content.startswith("```json"):
      content = content[len("```json"):].strip()
  elif content.startswith("```"):
      content = content[len("```"):].strip()
  if content.endswith("```"):
      content = content[:-3].strip()
  \<close>
\<close>

definition slice_fences :: "pystr \<Rightarrow> pystr" where
  "slice_fences raw =
     (let content = strip raw;
          content =
            (if startswith content (lit ''```json'')
               then strip (drop (length (lit ''```json'')) content)
             else if startswith content (lit ''```'')
               then strip (drop (length (lit ''```'')) content)
             else content)
      in if endswith content (lit ''```'')
           then strip (take (length content - 3) content)
         else content)"

text \<open>
  Regular expressions as \<open>re\<close> parses them. \<open>rx_width\<close> is the least and the greatest
  length of a match (\<open>None\<close>: no bound); \<open>re\<close> compiles a look-behind only when the two
  are equal, and raises \<open>re.error\<close> (look-behind requires fixed-width pattern) otherwise.
\<close>

fun rx_str :: "pystr \<Rightarrow> rx" where
  "rx_str [] = Eps"
| "rx_str (c # cs) = Cat (Chr c) (rx_str cs)"

fun rx_width :: "rx \<Rightarrow> nat \<times> nat option" where
  "rx_width Eps = (0, Some 0)"
| "rx_width (Chr c) = (1, Some 1)"
| "rx_width Dot = (1, Some 1)"
| "rx_width (NotChr c) = (1, Some 1)"
| "rx_width (Cat a b) =
     (fst (rx_width a) + fst (rx_width b),
      case (snd (rx_width a), snd (rx_width b)) of
        (Some x, Some y) \<Rightarrow> Some (x + y)
      | _ \<Rightarrow> None)"
| "rx_width (Alt a b) =
     (min (fst (rx_width a)) (fst (rx_width b)),
      case (snd (rx_width a), snd (rx_width b)) of
        (Some x, Some y) \<Rightarrow> Some (max x y)
      | _ \<Rightarrow> None)"
| "rx_width (Opt a) = (0, snd (rx_width a))"
| "rx_width (StarLazy a) = (0, None)"
| "rx_width (Grp a) = rx_width a"
| "rx_width (Lookbehind a) = (0, Some 0)"

fun rx_compiles :: "rx \<Rightarrow> bool" where
  "rx_compiles (Cat a b) = (rx_compiles a \<and> rx_compiles b)"
| "rx_compiles (Alt a b) = (rx_compiles a \<and> rx_compiles b)"
| "rx_compiles (Opt a) = rx_compiles a"
| "rx_compiles (StarLazy a) = rx_compiles a"
| "rx_compiles (Grp a) = rx_compiles a"
| "rx_compiles (Lookbehind a) =
     (rx_compiles a \<and> snd (rx_width a) = Some (fst (rx_width a)))"
| "rx_compiles r = True"

definition re_sub :: "env \<Rightarrow> rx \<Rightarrow> (pystr \<Rightarrow> pystr) \<Rightarrow> pystr \<Rightarrow> exn + pystr" where
  "re_sub E pattern repl s =
     (if rx_compiles pattern then Inr (re_engine E pattern repl s) else Inl ReError)"

text \<open>
  \<^verbatim>\<open>
  pattern = r'(?<="translation":\\s?)"(.*?[^\\])"|(?<="issue":\\s?)"(.*?[^\\])"'
  return re.sub(pattern, lambda m: f"\"{escape_inner_quotes(m)}\"", content)
  \<close>
  In the raw string, \<open>\\s?\<close> is a backslash (code point 92) followed by an optional
  \<open>s\<close>; \<open>[^\\]\<close> is any code point but the backslash. Code point 34 is the double quote.
\<close>

definition quoted_value :: rx where
  "quoted_value = Cat (Chr 34) (Cat (Grp (Cat (StarLazy Dot) (NotChr 92))) (Chr 34))"

definition field_pattern :: "pystr \<Rightarrow> rx" where
  "field_pattern name =
     Cat (Lookbehind (Cat (rx_str ([34] @ name @ [34, 58])) (Cat (Chr 92) (Opt (Chr 115)))))
       quoted_value"

definition escape_pattern :: rx where
  "escape_pattern = Alt (field_pattern (lit ''translation'')) (field_pattern (lit ''issue''))"

definition escape_inner_quotes :: "pystr \<Rightarrow> pystr" where
  "escape_inner_quotes m = concat (map (\<lambda>c. if c = 34 then [92, 34] else [c]) m)"

text \<open>
  The curly quotes replaced are U+201C, U+201D (by the double quote), U+2018, U+2019 (by
  the apostrophe, code point 39), U+00AB and U+00BB (by the double quote).
\<close>

definition clean_quotes_and_escape :: "env \<Rightarrow> pystr \<Rightarrow> exn + pystr" where
  "clean_quotes_and_escape E content =
     (let content =
            replace_char 187 34 (replace_char 171 34
              (replace_char 8217 39 (replace_char 8216 39
                (replace_char 8221 34 (replace_char 8220 34 content)))))
      in re_sub E escape_pattern (\<lambda>m. [34] @ escape_inner_quotes m @ [34]) content)"

text \<open>
  \<open>re.search(r'{.*}', content, re.DOTALL)\<close>: from the first \<open>{\<close> (code point 123) to the
  last \<open>}\<close> (code point 125) after it.
\<close>

definition search_braces :: "pystr \<Rightarrow> pystr option" where
  "search_braces s =
     (let from_open = dropWhile (\<lambda>c. c \<noteq> 123) s;
          upto_close = rev (dropWhile (\<lambda>c. c \<noteq> 125) (rev (tl from_open)))
      in if from_open = [] \<or> upto_close = [] then None else Some (123 # upto_close))"

text \<open>
  The end of \<open>check_translation_chunk\<close>: the log, the message, the failure marker.
  \<open>decode_review\<close> is the part of \<open>check_translation_chunk\<close> after the request.
\<close>

definition parse_failed :: "world \<Rightarrow> pystr \<Rightarrow> pystr \<Rightarrow> json \<times> world" where
  "parse_failed w target_language content =
     (let log_path = path_join TRANSLATION_FOLDER (target_language @ lit ''_parse_error.log'')
      in (JObj [(lit ''error'', JStr content)],
          print (write_file w log_path (RawText content)) (CouldNotParse target_language)))"

definition decode_review :: "env \<Rightarrow> pystr \<Rightarrow> pystr \<Rightarrow> world \<Rightarrow> exn + json \<times> world" where
  "decode_review E target_language raw w =
     (case clean_quotes_and_escape E (slice_fences raw) of
        Inl e \<Rightarrow> Inl e
      | Inr content \<Rightarrow>
          (case loads E content of
             Some issues \<Rightarrow> Inr (issues, w)
           | None \<Rightarrow>
               (case search_braces content of
                  None \<Rightarrow> Inr (parse_failed w target_language content)
                | Some json_match \<Rightarrow>
                    (case clean_quotes_and_escape E json_match of
                       Inl e \<Rightarrow> Inl e
                     | Inr raw2 \<Rightarrow>
                         (case loads E raw2 of
                            Some issues \<Rightarrow> Inr (issues, w)
                          | None \<Rightarrow> Inr (parse_failed w target_language content))))))"

definition check_translation_chunk ::
  "env \<Rightarrow> dict \<Rightarrow> dict \<Rightarrow> pystr \<Rightarrow> world \<Rightarrow> exn + json \<times> world" where
  "check_translation_chunk E en_chunk translated_chunk target_language w =
     (case llm E (calls w) (Review target_language en_chunk translated_chunk) of
        Inl e \<Rightarrow> Inl e
      | Inr raw \<Rightarrow> decode_review E target_language raw (w\<lparr>calls := Suc (calls w)\<rparr>))"

text \<open>
  The loops of \<open>check_translations\<close>. The per-chunk reviewer is a parameter of the loops,
  so that the merge is stated for whatever Problem Record a reviewer returns;
  \<open>check_translations\<close> is the instance with \<open>check_translation_chunk\<close>.
  \<^verbatim>\<open>
  for chunk in tqdm(list(chunk_dict(en_data, chunk_size)), desc=f"Checking {lang}"):
      translated_chunk = {k: translated_data.get(k, "") for k in chunk.keys()}
      issues = check_translation_chunk(chunk, translated_chunk, lang)
      problems.update(issues)
  \<close>
\<close>

type_synonym reviewer = "dict \<Rightarrow> dict \<Rightarrow> pystr \<Rightarrow> world \<Rightarrow> exn + json \<times> world"

fun check_chunks ::
  "env \<Rightarrow> reviewer \<Rightarrow> pystr \<Rightarrow> dict \<Rightarrow> dict list \<Rightarrow> world \<Rightarrow> dict \<Rightarrow> exn + world \<times> dict" where
  "check_chunks E review lang translated_data [] w problems = Inr (w, problems)"
| "check_chunks E review lang translated_data (chunk # rest) w problems =
     (let translated_chunk =
            py_dict (map (\<lambda>k. (k, case map_of translated_data k of
                                     None \<Rightarrow> JStr [] | Some v \<Rightarrow> v))
                       (map fst chunk))
      in case review chunk translated_chunk lang w of
           Inl e \<Rightarrow> Inl e
         | Inr (issues, w1) \<Rightarrow>
             (case py_update E problems issues of
                (ps, Some e) \<Rightarrow> Inl e
              | (ps, None) \<Rightarrow> check_chunks E review lang translated_data rest w1 ps))"

text \<open>
  \<^verbatim>\<open>
  for key, data in problems.items():
      if isinstance(data, dict) and "translation" in data:
          translated_data[key] = data["translation"]
  \<close>
\<close>

fun patch_problems :: "dict \<Rightarrow> dict \<Rightarrow> dict" where
  "patch_problems [] translated_data = translated_data"
| "patch_problems ((key, data) # rest) translated_data =
     patch_problems rest
       (case data of
          JObj d \<Rightarrow>
            (case map_of d (lit ''translation'') of
               Some t \<Rightarrow> setitem translated_data key t
             | None \<Rightarrow> translated_data)
        | _ \<Rightarrow> translated_data)"

definition check_lang ::
  "env \<Rightarrow> reviewer \<Rightarrow> dict \<Rightarrow> pystr \<Rightarrow> int \<Rightarrow> pystr \<Rightarrow> world \<Rightarrow> exn + world" where
  "check_lang E review en_data folder chunk_size lang w =
     (let lang_file = out_path folder lang
      in if files w lang_file = None then Inr (print w (NotFound lang_file))
         else
           (case load_dict w lang_file of
              Inl e \<Rightarrow> Inl e
            | Inr translated_data \<Rightarrow>
                (case chunk_dict en_data chunk_size of
                   Inl e \<Rightarrow> Inl e
                 | Inr chunks \<Rightarrow>
                     (case check_chunks E review lang translated_data chunks w [] of
                        Inl e \<Rightarrow> Inl e
                      | Inr (w1, problems) \<Rightarrow>
                          if problems \<noteq> [] then
                            Inr (print
                                  (write_file w1 lang_file
                                     (Json (JObj (patch_problems problems translated_data))))
                                  (UpdatedWritten lang_file))
                          else Inr (print w1 (NoIssues lang))))))"

definition check_translations_with ::
  "env \<Rightarrow> reviewer \<Rightarrow> pystr \<Rightarrow> pystr \<Rightarrow> pystr list \<Rightarrow> int \<Rightarrow> world \<Rightarrow> exn + world" where
  "check_translations_with E review input_file folder languages chunk_size w =
     (case load_dict w input_file of
        Inl e \<Rightarrow> Inl e
      | Inr en_data \<Rightarrow> for_each (check_lang E review en_data folder chunk_size) languages w)"

definition check_translations ::
  "env \<Rightarrow> pystr \<Rightarrow> pystr \<Rightarrow> pystr list \<Rightarrow> int \<Rightarrow> world \<Rightarrow> exn + world" where
  "check_translations E input_file folder languages chunk_size w =
     check_translations_with E (check_translation_chunk E) input_file folder languages
       chunk_size w"

section \<open>Vocabulary of the properties\<close>

text \<open>The \<open>text\<close> field of an update directive, when it has one.\<close>

fun text_field :: "json \<Rightarrow> json option" where
  "text_field (JObj d) = map_of d (lit ''text'')"
| "text_field v = None"

text \<open>
  A response wrapped in a fenced code block: the opening fence, the tag (\<open>json\<close> or
  nothing), the body between two runs of whitespace, the closing fence.
\<close>

definition fenced :: "pystr \<Rightarrow> pystr \<Rightarrow> pystr \<Rightarrow> pystr \<Rightarrow> pystr" where
  "fenced tag pre body post = lit ''```'' @ tag @ pre @ body @ post @ lit ''```''"

text \<open>
  The text of a JSON object, possibly surrounded by whitespace: it opens with \<open>{\<close> and
  closes with \<open>}\<close>.
\<close>

definition object_text :: "pystr \<Rightarrow> bool" where
  "object_text t = (strip t \<noteq> [] \<and> hd (strip t) = 123 \<and> last (strip t) = 125)"









section \<open>Simulated runs\<close>

text \<open>
  A simulated Translation Client for the examples: request \<open>n\<close> fails when \<open>fails n\<close>,
  and is otherwise answered with the keys of the chunk put together; \<open>decode\<close> plays
  \<open>json.loads\<close>. \<open>echo\<close> decodes a text to the object with that text as its one key.
  \<open>world_with\<close> is a world holding the given files and nothing else; \<open>abc\<close> is a String
  Table of three plain entries.
\<close>

definition simulated_env :: "(nat \<Rightarrow> bool) \<Rightarrow> (pystr \<Rightarrow> json option) \<Rightarrow> env" where
  "simulated_env fails decode =
     \<lparr>llm = (\<lambda>n req. if fails n then Inl (ClientError (lit ''down''))
                     else Inr (case req of
                                 Translate lang chunk \<Rightarrow> concat (map fst chunk)
                               | Review lang en_chunk translated_chunk \<Rightarrow> concat (map fst en_chunk))),
      loads = decode,
      update_seq = (\<lambda>d j. (d, Some TypeError)),
      re_engine = (\<lambda>r f s. s)\<rparr>"




definition world_with :: "(pystr \<times> content) list \<Rightarrow> world" where
  "world_with fs = \<lparr>files = map_of fs, ops = [], console = [], calls = 0\<rparr>"






section \<open>Dictionaries: basic facts\<close>

lemma map_of_setitem: "map_of (setitem d k v) = (map_of d)(k \<mapsto> v)"
  by (simp add: setitem_def update_conv')

lemma distinct_setitem: "distinct (map fst d) \<Longrightarrow> distinct (map fst (setitem d k v))"
  by (simp add: setitem_def distinct_update)


lemma setitem_append_new:
  "k \<notin> fst ` set d \<Longrightarrow> setitem d k v = d @ [(k, v)]"
  unfolding setitem_def by (induction d) auto

lemma dict_update_Nil [simp]: "dict_update d [] = d"
  by (simp add: dict_update_def)

lemma dict_update_Cons [simp]:
  "dict_update d ((k, v) # other) = dict_update (setitem d k v) other"
  by (simp add: dict_update_def)

lemma dict_update_append:
  "dict_update d (xs @ ys) = dict_update (dict_update d xs) ys"
  by (simp add: dict_update_def)

lemma distinct_dict_update:
  "distinct (map fst d) \<Longrightarrow> distinct (map fst (dict_update d other))"
  by (induction other arbitrary: d) (auto simp: distinct_setitem)



lemma dict_update_disjoint_append:
  "distinct (map fst other) \<Longrightarrow> fst ` set d \<inter> fst ` set other = {} \<Longrightarrow>
   dict_update d other = d @ other"
proof (induction other arbitrary: d)
  case Nil
  then show ?case by simp
next
  case (Cons p other)
  obtain k v where p: "p = (k, v)" by (cases p)
  from Cons.prems p have knew: "k \<notin> fst ` set d" by auto
  have step: "setitem d k v = d @ [(k, v)]"
    by (rule setitem_append_new [OF knew])
  from Cons.prems p have d: "distinct (map fst other)"
    and disj: "fst ` set (d @ [(k, v)]) \<inter> fst ` set other = {}"
    by auto
  show ?case
    using Cons.IH [OF d disj] p step by simp
qed

lemma py_dict_distinct: "distinct (map fst items) \<Longrightarrow> py_dict items = items"
  using dict_update_disjoint_append [of items "[]"] by (simp add: py_dict_def)

lemma distinct_py_dict: "distinct (map fst (py_dict items))"
  by (simp add: py_dict_def distinct_dict_update)

section \<open>Chunker: properties\<close>

lemma chunks_from_plain:
  "distinct (map fst items) \<Longrightarrow> 0 < n \<Longrightarrow>
   chunks_from items n i =
     (if length items \<le> i then [] else take n (drop i items) # chunks_from items n (i + n))"
proof -
  assume d: "distinct (map fst items)" and n: "0 < n"
  have "distinct (map fst (take n (drop i items)))"
    using d by (simp add: distinct_drop distinct_take flip: drop_map take_map)
  then have "py_dict (take n (drop i items)) = take n (drop i items)"
    by (rule py_dict_distinct)
  then show ?thesis using n by (subst chunks_from.simps) simp
qed

lemma concat_chunks_from:
  "distinct (map fst items) \<Longrightarrow> 0 < n \<Longrightarrow> concat (chunks_from items n i) = drop i items"
proof (induction items n i rule: chunks_from.induct)
  case (1 items n i)
  show ?case
  proof (cases "length items \<le> i")
    case True
    then show ?thesis using 1 by (subst chunks_from_plain) auto
  next
    case False
    with 1 have ih: "concat (chunks_from items n (i + n)) = drop (i + n) items"
      by simp
    have "concat (chunks_from items n i) = take n (drop i items) @ drop (i + n) items"
      using False 1 ih by (subst chunks_from_plain) auto
    also have "\<dots> = drop i items"
      by (metis add.commute append_take_drop_id drop_drop)
    finally show ?thesis .
  qed
qed

lemma length_chunks_from:
  "distinct (map fst items) \<Longrightarrow> 0 < n \<Longrightarrow>
   length (chunks_from items n i) = (length items - i + n - 1) div n"
proof (induction items n i rule: chunks_from.induct)
  case (1 items n i)
  show ?case
  proof (cases "length items \<le> i")
    case True
    then show ?thesis using 1 by (subst chunks_from_plain) auto
  next
    case False
    with 1 have ih:
      "length (chunks_from items n (i + n)) = (length items - (i + n) + n - 1) div n"
      by simp
    have len: "length (chunks_from items n i) = Suc ((length items - (i + n) + n - 1) div n)"
      using False 1 ih by (subst chunks_from_plain) auto
    show ?thesis
    proof (cases "length items \<le> i + n")
      case True
      with False 1 have "(length items - i + n - 1) div n = 1"
        by (intro Euclidean_Rings.div_nat_eqI) auto
      with True 1 len show ?thesis by simp
    next
      case far: False
      then have "length items - i + n - 1 = (length items - (i + n) + n - 1) + n"
        by simp
      then have "(length items - i + n - 1) div n = (length items - (i + n) + n - 1) div n + 1"
        using "1.prems"(2) by (simp only: div_add_self2) 
      with len show ?thesis by simp
    qed
  qed
qed

lemma chunks_from_bounded:
  "distinct (map fst items) \<Longrightarrow> 0 < n \<Longrightarrow> c \<in> set (chunks_from items n i) \<Longrightarrow>
   length c \<le> n \<and> c \<noteq> []"
proof (induction items n i rule: chunks_from.induct)
  case (1 items n i)
  show ?case
  proof (cases "length items \<le> i")
    case True
    with 1 show ?thesis by (subst (asm) (2) chunks_from_plain) auto
  next
    case False
    from "1.prems" False have
      "c = take n (drop i items) \<or> c \<in> set (chunks_from items n (i + n))"
      by (subst (asm) chunks_from_plain) auto
    then show ?thesis
    proof
      assume "c = take n (drop i items)"
      with False "1.prems" show ?thesis by auto
    next
      assume "c \<in> set (chunks_from items n (i + n))"
      with 1 False show ?thesis by simp
    qed
  qed
qed

text \<open>
  C2. For a mapping \<open>M\<close> (keys unique, as in every Python dict) and a positive chunk size
  \<open>N\<close>, \<open>chunk_dict\<close> returns \<open>ceil(|M|/N)\<close> chunks, each of at most \<open>N\<close> entries;
  their concatenation in order is \<open>M\<close>; an empty \<open>M\<close> gives no chunk at all.
\<close>

theorem chunk_dict_partition:
  assumes "distinct (map fst M)" and "0 < N"
  shows "\<exists>cs. chunk_dict M N = Inr cs
           \<and> int (length cs) = (int (length M) + N - 1) div N
           \<and> (\<forall>c \<in> set cs. int (length c) \<le> N)
           \<and> concat cs = M
           \<and> (M = [] \<longrightarrow> cs = [])"
proof -
  let ?n = "nat N"
  let ?cs = "chunks_from M ?n 0"
  from assms have n: "0 < ?n" by simp
  have ret: "chunk_dict M N = Inr ?cs"
    using assms by (simp add: chunk_dict_def)
  have "length ?cs = (length M - 0 + ?n - 1) div ?n"
    by (rule length_chunks_from [OF assms(1) n])
  then have "int (length ?cs) = int ((length M + ?n - 1) div ?n)"
    by simp
  also have "\<dots> = (int (length M) + N - 1) div N"
    using assms(2) n by (simp add: zdiv_int of_nat_diff)
  finally have cnt: "int (length ?cs) = (int (length M) + N - 1) div N" .
  have bound: "\<forall>c \<in> set ?cs. int (length c) \<le> N"
  proof
    fix c assume "c \<in> set ?cs"
    then have "length c \<le> ?n"
      using chunks_from_bounded [OF assms(1) n] by blast
    then show "int (length c) \<le> N" using assms(2) by linarith
  qed
  have cat: "concat ?cs = M"
    using concat_chunks_from [OF assms(1) n, of 0] by simp
  have emp: "M = [] \<longrightarrow> ?cs = []"
    by (auto simp: chunks_from.simps)
  from ret cnt bound cat emp show ?thesis by blast
qed

theorem chunk_dict_partition_witness:
  "distinct (map fst [(lit ''a'', JStr (lit ''Hello'')), (lit ''b'', JStr (lit ''Goodbye'')),
                      (lit ''c'', JInt 3)])
   \<and> (0::int) < 2
   \<and> (\<exists>cs. chunk_dict [(lit ''a'', JStr (lit ''Hello'')), (lit ''b'', JStr (lit ''Goodbye'')),
                          (lit ''c'', JInt 3)] 2 = Inr cs
           \<and> int (length cs) = (int (length [(lit ''a'', JStr (lit ''Hello'')),
                          (lit ''b'', JStr (lit ''Goodbye'')), (lit ''c'', JInt 3)]) + 2 - 1) div 2
           \<and> (\<forall>c \<in> set cs. int (length c) \<le> 2)
           \<and> concat cs = [(lit ''a'', JStr (lit ''Hello'')), (lit ''b'', JStr (lit ''Goodbye'')),
                          (lit ''c'', JInt 3)]
           \<and> ([(lit ''a'', JStr (lit ''Hello'')), (lit ''b'', JStr (lit ''Goodbye'')),
                          (lit ''c'', JInt 3)] = [] \<longrightarrow> cs = []))"
proof -
  have d: "distinct (map fst [(lit ''a'', JStr (lit ''Hello'')), (lit ''b'', JStr (lit ''Goodbye'')),
                      (lit ''c'', JInt 3)])"
    by (simp add: lit_def)
  have n: "(0::int) < 2" by simp
  from chunk_dict_partition [OF d n] d n show ?thesis by blast
qed

section \<open>Sync Planner: properties\<close>

lemma is_update_dict: "is_update v \<Longrightarrow> isinstance_dict v"
  by (cases v) auto

lemma updates_of_filter:
  "distinct (map fst en) \<Longrightarrow> updates_of en = filter (\<lambda>(k, v). is_update v) en"
  unfolding updates_of_def by (rule py_dict_distinct) (simp add: distinct_map_filter)

lemma map_of_filter_distinct:
  "distinct (map fst xs) \<Longrightarrow>
   map_of (filter (\<lambda>(k, v). P k v) xs) k = (case map_of xs k of None \<Rightarrow> None | Some v \<Rightarrow> if P k v then Some v else None)"
proof (induction xs)
  case Nil
  then show ?case by simp
next
  case (Cons p xs)
  obtain a b where p: "p = (a, b)" by (cases p)
  from Cons.prems p have a: "a \<notin> fst ` set xs" and d: "distinct (map fst xs)" by auto
  from a have none: "map_of xs a = None" by (simp add: map_of_eq_None_iff)
  have none': "map_of (filter (\<lambda>(k, v). P k v) xs) a = None"
    using a by (auto simp: map_of_eq_None_iff)
  show ?case using Cons.IH [OF d] p none none' by (auto split: option.splits)
qed

lemma new_keys_of_filter:
  assumes "distinct (map fst en)"
  shows "new_keys_of en = filter (\<lambda>(k, v). \<not> isinstance_dict v) en"
proof -
  have eq: "filter (\<lambda>(k, v). map_of (updates_of en) k = None \<and> \<not> isinstance_dict v) en
          = filter (\<lambda>(k, v). \<not> isinstance_dict v) en"
  proof (rule filter_cong [OF refl])
    fix x assume x: "x \<in> set en"
    obtain k v where kv: "x = (k, v)" by (cases x)
    from x kv assms have m: "map_of en k = Some v" by simp
    have "\<not> isinstance_dict v \<Longrightarrow> map_of (updates_of en) k = None"
      using m is_update_dict [of v]
      by (auto simp: updates_of_filter [OF assms] map_of_filter_distinct [OF assms])
    then show "(case x of (k, v) \<Rightarrow> map_of (updates_of en) k = None \<and> \<not> isinstance_dict v)
             = (case x of (k, v) \<Rightarrow> \<not> isinstance_dict v)"
      using kv by auto
  qed
  show ?thesis
    unfolding new_keys_of_def eq
    by (rule py_dict_distinct) (simp add: distinct_map_filter assms)
qed

lemma plan_new_lookup:
  "distinct (map fst xs) \<Longrightarrow>
   map_of (plan_new T xs acc) x =
     (case map_of xs x of
        Some v \<Rightarrow> if map_of T x = None then Some v else map_of acc x
      | None \<Rightarrow> map_of acc x)"
proof (induction xs arbitrary: acc)
  case Nil
  then show ?case by simp
next
  case (Cons p xs)
  obtain k v where p: "p = (k, v)" by (cases p)
  from Cons.prems p have k: "k \<notin> fst ` set xs" and d: "distinct (map fst xs)" by auto
  from k have none: "map_of xs k = None" by (simp add: map_of_eq_None_iff)
  show ?case
    using Cons.IH [OF d] p none by (auto simp: map_of_setitem split: option.splits)
qed

lemma plan_new_distinct:
  "distinct (map fst acc) \<Longrightarrow> distinct (map fst (plan_new T xs acc))"
  by (induction xs arbitrary: acc) (auto simp: distinct_setitem)

lemma plan_updates_ok:
  "distinct (map fst us) \<Longrightarrow>
   \<forall>(k, u) \<in> set us. map_of en k \<noteq> None \<and> isinstance_dict u \<and> text_field u \<noteq> None \<Longrightarrow>
   \<exists>ws. plan_updates en us acc = Inr ws
        \<and> (distinct (map fst acc) \<longrightarrow> distinct (map fst ws))
        \<and> (\<forall>x. map_of ws x =
              (case map_of us x of Some u \<Rightarrow> text_field u | None \<Rightarrow> map_of acc x))"
proof (induction us arbitrary: acc)
  case Nil
  then show ?case by simp
next
  case (Cons p us)
  obtain k u where p: "p = (k, u)" by (cases p)
  from Cons.prems p have k: "k \<notin> fst ` set us" and d: "distinct (map fst us)" by auto
  from k have none: "map_of us k = None" by (simp add: map_of_eq_None_iff)
  from Cons.prems p obtain dd t where u: "u = JObj dd" and t: "map_of dd (lit ''text'') = Some t"
    and inen: "map_of en k \<noteq> None"
    by (cases u) auto
  from Cons.prems have rest: "\<forall>(k, u) \<in> set us. map_of en k \<noteq> None \<and> isinstance_dict u \<and> text_field u \<noteq> None"
    by simp
  from Cons.IH [OF d rest, of "setitem acc k t"] obtain ws where
    ws: "plan_updates en us (setitem acc k t) = Inr ws"
    and dws: "distinct (map fst (setitem acc k t)) \<longrightarrow> distinct (map fst ws)"
    and look: "\<forall>x. map_of ws x =
              (case map_of us x of Some u \<Rightarrow> text_field u | None \<Rightarrow> map_of (setitem acc k t) x)"
    by blast
  have 1: "plan_updates en (p # us) acc = Inr ws"
    using p u t inen ws by auto
  have 2: "distinct (map fst acc) \<longrightarrow> distinct (map fst ws)"
    using dws by (simp add: distinct_setitem)
  have 3: "\<forall>x. map_of ws x =
              (case map_of (p # us) x of Some u \<Rightarrow> text_field u | None \<Rightarrow> map_of acc x)"
    using look p u t none by (auto simp: map_of_setitem split: option.splits)
  from 1 2 3 show ?case by blast
qed

text \<open>
  C1, as the code has it. For a String Table \<open>S\<close> (keys unique) whose update directives
  all carry a \<open>text\<close> field, and any Locale File \<open>T\<close>, the Sync Planner returns a
  work-set that holds exactly: every update directive of \<open>S\<close> (a record whose \<open>update\<close>
  field is true in Python's sense), with its \<open>text\<close> as value, whether or not its key is
  in \<open>T\<close>; and every entry of \<open>S\<close> whose value is not a record and whose key is absent
  from \<open>T\<close>, with its full value. A record that is not an update directive is never in
  the work-set.
\<close>

theorem work_set_exact:
  assumes dist: "distinct (map fst S)"
    and texts: "\<forall>(k, v) \<in> set S. is_update v \<longrightarrow> text_field v \<noteq> None"
  shows "\<exists>ws. work_set S T = Inr ws
           \<and> distinct (map fst ws)
           \<and> (\<forall>k. map_of ws k =
                 (case map_of S k of
                    None \<Rightarrow> None
                  | Some v \<Rightarrow>
                      if is_update v then text_field v
                      else if \<not> isinstance_dict v \<and> map_of T k = None then Some v
                      else None))"
proof -
  let ?us = "filter (\<lambda>(k, v). is_update v) S"
  let ?ns = "filter (\<lambda>(k, v). \<not> isinstance_dict v) S"
  have us: "updates_of S = ?us" by (rule updates_of_filter [OF dist])
  have ns: "new_keys_of S = ?ns" by (rule new_keys_of_filter [OF dist])
  have dus: "distinct (map fst ?us)" and dns: "distinct (map fst ?ns)"
    using dist by (simp_all add: distinct_map_filter)
  have pre: "\<forall>(k, u) \<in> set ?us. map_of S k \<noteq> None \<and> isinstance_dict u \<and> text_field u \<noteq> None"
    using texts dist is_update_dict by (auto simp: map_of_eq_None_iff intro: rev_image_eqI)
  from plan_updates_ok [OF dus pre, of "plan_new T ?ns []"] obtain ws where
    ws: "plan_updates S ?us (plan_new T ?ns []) = Inr ws"
    and dws: "distinct (map fst (plan_new T ?ns [])) \<longrightarrow> distinct (map fst ws)"
    and look: "\<forall>x. map_of ws x =
              (case map_of ?us x of Some u \<Rightarrow> text_field u | None \<Rightarrow> map_of (plan_new T ?ns []) x)"
    by blast
  have 1: "work_set S T = Inr ws" by (simp add: work_set_def us ns ws)
  have 2: "distinct (map fst ws)" using dws plan_new_distinct [of "[]"] by simp
  have 3: "map_of ws k =
                 (case map_of S k of
                    None \<Rightarrow> None
                  | Some v \<Rightarrow>
                      if is_update v then text_field v
                      else if \<not> isinstance_dict v \<and> map_of T k = None then Some v
                      else None)" for k
    using look is_update_dict
    by (auto simp: plan_new_lookup [OF dns] map_of_filter_distinct [OF dist] split: option.splits)
  from 1 2 3 show ?thesis by blast
qed

theorem work_set_exact_witness:
  "\<exists>ws. work_set
          [(lit ''a'', JStr (lit ''Hello'')),
           (lit ''b'', JObj [(lit ''text'', JStr (lit ''Goodbye'')), (lit ''update'', JBool True)]),
           (lit ''c'', JStr (lit ''Kept''))]
          [(lit ''b'', JStr (lit ''Adieu'')), (lit ''c'', JStr (lit ''Garde''))] = Inr ws
      \<and> map_of ws (lit ''a'') = Some (JStr (lit ''Hello''))
      \<and> map_of ws (lit ''b'') = Some (JStr (lit ''Goodbye''))
      \<and> map_of ws (lit ''c'') = None"
proof -
  let ?S = "[(lit ''a'', JStr (lit ''Hello'')),
           (lit ''b'', JObj [(lit ''text'', JStr (lit ''Goodbye'')), (lit ''update'', JBool True)]),
           (lit ''c'', JStr (lit ''Kept''))]"
  let ?T = "[(lit ''b'', JStr (lit ''Adieu'')), (lit ''c'', JStr (lit ''Garde''))]"
  have d: "distinct (map fst ?S)" by (simp add: lit_def)
  have t: "\<forall>(k, v) \<in> set ?S. is_update v \<longrightarrow> text_field v \<noteq> None"
    by (simp add: lit_def)
  from work_set_exact [OF d t, of ?T] obtain ws where
    ws: "work_set ?S ?T = Inr ws"
    and look: "\<And>k. map_of ws k =
                 (case map_of ?S k of
                    None \<Rightarrow> None
                  | Some v \<Rightarrow>
                      if is_update v then text_field v
                      else if \<not> isinstance_dict v \<and> map_of ?T k = None then Some v
                      else None)"
    by blast
  have a: "map_of ws (lit ''a'') = Some (JStr (lit ''Hello''))"
    by (simp add: look lit_def dict_get_def)
  have b: "map_of ws (lit ''b'') = Some (JStr (lit ''Goodbye''))"
    by (simp add: look lit_def dict_get_def)
  have c: "map_of ws (lit ''c'') = None"
    by (simp add: look lit_def dict_get_def)
  from ws a b c show ?thesis by blast
qed

text \<open>
  The claim C1 counts every value that is not an update directive as a plain entry. The
  record \<open>{"text": "Hi", "update": false}\<close> is not an update directive and its key is
  absent from the empty Locale File, yet the work-set is empty.
\<close>

theorem work_set_plain_record_counterexample:
  "map_of [(lit ''a'', JObj [(lit ''text'', JStr (lit ''Hi'')), (lit ''update'', JBool False)])]
      (lit ''a'')
     = Some (JObj [(lit ''text'', JStr (lit ''Hi'')), (lit ''update'', JBool False)])
   \<and> \<not> is_update (JObj [(lit ''text'', JStr (lit ''Hi'')), (lit ''update'', JBool False)])
   \<and> map_of ([] :: dict) (lit ''a'') = None
   \<and> work_set [(lit ''a'', JObj [(lit ''text'', JStr (lit ''Hi'')), (lit ''update'', JBool False)])]
        [] = Inr []"
  by (simp add: work_set_def updates_of_def new_keys_of_def py_dict_def dict_get_def lit_def)

text \<open>
  C3. The claim says that an update directive with no \<open>text\<close> field puts its raw value
  into the work-set. For the String Table \<open>{"b": {"update": true}}\<close> the planner raises
  \<open>KeyError\<close> instead, whatever the Locale File holds, and the sync of that locale stops
  there.
\<close>

theorem work_set_directive_without_text:
  "work_set [(lit ''b'', JObj [(lit ''update'', JBool True)])] T = Inl (KeyError (lit ''text''))
   \<and> translate_sync_lang E [(lit ''b'', JObj [(lit ''update'', JBool True)])] folder n lang
         \<lparr>files = (\<lambda>p. None), ops = [], console = [], calls = 0\<rparr>
       = Inl (KeyError (lit ''text''))"
  by (simp add: translate_sync_lang_def work_set_def updates_of_def new_keys_of_def py_dict_def
      dict_get_def lit_def setitem_def)

section \<open>Response Normalizer: properties\<close>

lemma dropWhile_prefix_all:
  "(\<forall>x \<in> set xs. P x) \<Longrightarrow> ys = [] \<or> \<not> P (hd ys) \<Longrightarrow> dropWhile P (xs @ ys) = ys"
  by (cases ys) (auto simp: dropWhile_append2)

lemma rstrip_suffix_all:
  "(\<forall>x \<in> set xs. P x) \<Longrightarrow> ys = [] \<or> \<not> P (last ys) \<Longrightarrow>
   rev (dropWhile P (rev (ys @ xs))) = ys"
  using dropWhile_prefix_all [of "rev xs" P "rev ys"] by (auto simp: hd_rev)

lemma strip_core:
  assumes "\<forall>c \<in> set l. is_space c" "\<forall>c \<in> set r. is_space c"
    and "b \<noteq> []" "\<not> is_space (hd b)" "\<not> is_space (last b)"
  shows "strip (l @ b @ r) = b"
proof -
  have "dropWhile is_space (l @ (b @ r)) = b @ r"
    using assms by (intro dropWhile_prefix_all) auto
  moreover have "rev (dropWhile is_space (rev (b @ r))) = b"
    using assms by (intro rstrip_suffix_all) auto
  ultimately show ?thesis by (simp add: strip_def)
qed

lemma strip_decompose:
  "\<exists>l r. t = l @ strip t @ r \<and> (\<forall>c \<in> set l. is_space c) \<and> (\<forall>c \<in> set r. is_space c)"
proof -
  let ?l = "takeWhile is_space t"
  let ?m = "dropWhile is_space t"
  let ?r = "rev (takeWhile is_space (rev ?m))"
  have "rev (takeWhile is_space (rev ?m) @ dropWhile is_space (rev ?m)) = rev (rev ?m)"
    by (simp only: takeWhile_dropWhile_id)
  then have "rev (dropWhile is_space (rev ?m)) @ ?r = ?m"
    by (simp only: rev_append rev_rev_ident)
  then have m: "?m = strip t @ ?r" by (simp only: strip_def)
  have "t = ?l @ ?m" by simp
  with m have "t = ?l @ strip t @ ?r" by simp
  moreover have "\<forall>c \<in> set ?l. is_space c" by (auto dest: set_takeWhileD)
  moreover have "\<forall>c \<in> set ?r. is_space c" by (auto dest: set_takeWhileD)
  ultimately show ?thesis by blast
qed

lemma fence_chars_not_space:
  "\<not> is_space 96" "\<not> is_space 123" "\<not> is_space 125"
  by (simp_all add: is_space_def)

lemma space_not_fence_char: "is_space c \<Longrightarrow> c \<notin> set (lit ''```json'')"
  by (auto simp: is_space_def lit_def)

lemma endswithD: "endswith s p \<Longrightarrow> \<exists>q. s = q @ p"
  unfolding endswith_def by (metis append_take_drop_id)

lemma endswith_append: "endswith (q @ p) p"
  by (simp add: endswith_def)

lemma startswith_append: "startswith (p @ q) p"
  by (simp add: startswith_def)

lemma plain_object:
  assumes "b \<noteq> []" "hd b = 123" "last b = 125"
  shows "\<not> startswith b (lit ''```json'')" "\<not> startswith b (lit ''```'')" "\<not> endswith b (lit ''```'')"
proof -
  from assms obtain x xs where b: "b = x # xs" and x: "x = 123" by (cases b) auto
  show "\<not> startswith b (lit ''```json'')" using b x by (simp add: startswith_def lit_def)
  show "\<not> startswith b (lit ''```'')" using b x by (simp add: startswith_def lit_def)
  show "\<not> endswith b (lit ''```'')"
  proof
    assume "endswith b (lit ''```'')"
    then obtain q where "b = q @ lit ''```''" by (auto dest: endswithD)
    then have "last b = 96" by (simp add: lit_def)
    with assms show False by simp
  qed
qed

lemma strip_fences_plain:
  "object_text t \<Longrightarrow> strip_fences t = strip t"
  using plain_object [of "strip t"] by (simp add: strip_fences_def object_text_def Let_def)

lemma slice_fences_plain:
  "object_text t \<Longrightarrow> slice_fences t = strip t"
  using plain_object [of "strip t"] by (simp add: slice_fences_def object_text_def Let_def)


lemma fenced_translate:
  assumes t: "object_text t"
    and pre: "\<forall>c \<in> set pre. is_space c" and post: "\<forall>c \<in> set post. is_space c"
    and tag: "tag = lit ''json'' \<or> tag = []"
  shows "strip_fences (fenced tag pre t post) = strip t"
proof -
  let ?F = "lit ''```''"
  let ?b = "strip t"
  from strip_decompose [of t] obtain l r where
    dec: "t = l @ ?b @ r" and l: "\<forall>c \<in> set l. is_space c" and r: "\<forall>c \<in> set r. is_space c"
    by blast
  from t have b: "?b \<noteq> []" "hd ?b = 123" "last ?b = 125" by (simp_all add: object_text_def)
  let ?inner = "(pre @ l) @ (?b @ (r @ post) @ ?F)"
  let ?raw = "?F @ tag @ ?inner"
  have raw: "fenced tag pre t post = ?raw"
    by (subst dec) (simp add: fenced_def)
  have s1: "strip ?raw = ?raw"
    using strip_core [of "[]" "[]" ?raw] by (simp add: lit_def fence_chars_not_space)
  have hd_inner: "hd ?inner = 123 \<or> is_space (hd ?inner)"
  proof (cases "pre @ l")
    case Nil
    then show ?thesis using b by simp
  next
    case (Cons a list)
    then have "a \<in> set (pre @ l)" by simp
    then have "is_space a" using pre l by auto
    then show ?thesis using Cons by simp
  qed
  have inner_ne: "?inner \<noteq> []" using b by simp
  have lead: "strip (lstrip_chars ?raw (lit ''```'' @ tag)) = ?b @ (r @ post) @ ?F"
  proof -
    have "dropWhile (\<lambda>c. c \<in> set (lit ''```'' @ tag)) ((?F @ tag) @ ?inner) = ?inner"
    proof (rule dropWhile_prefix_all)
      show "\<forall>x \<in> set (?F @ tag). x \<in> set (lit ''```'' @ tag)" by simp
      show "?inner = [] \<or> hd ?inner \<notin> set (lit ''```'' @ tag)"
        using hd_inner tag space_not_fence_char by (auto simp: lit_def)
    qed
    then have "lstrip_chars ?raw (lit ''```'' @ tag) = ?inner"
      by (simp add: lstrip_chars_def)
    moreover have "strip ((pre @ l) @ (?b @ (r @ post) @ ?F) @ []) = ?b @ (r @ post) @ ?F"
      using pre l b by (intro strip_core) (auto simp: lit_def fence_chars_not_space)
    ultimately show ?thesis by simp
  qed
  have tail: "strip (rstrip_chars (?b @ (r @ post) @ ?F) ?F) = ?b"
  proof -
    have "rev (dropWhile (\<lambda>c. c \<in> set ?F) (rev ((?b @ r @ post) @ ?F))) = ?b @ r @ post"
    proof (rule rstrip_suffix_all)
      show "\<forall>x \<in> set ?F. x \<in> set ?F" by simp
      have "last (?b @ r @ post) = 125 \<or> is_space (last (?b @ r @ post))"
      proof (cases "r @ post" rule: rev_cases)
        case Nil
        then show ?thesis using b by simp
      next
        case (snoc ys a)
        then have "a \<in> set (r @ post)" by simp
        then have "is_space a" using r post by auto
        moreover have "last (?b @ r @ post) = a"
          using snoc by (metis append_assoc last_snoc)
        ultimately show ?thesis by simp
      qed
      then show "?b @ r @ post = [] \<or> last (?b @ r @ post) \<notin> set ?F"
        using space_not_fence_char by (auto simp: lit_def)
    qed
    then have "rstrip_chars (?b @ (r @ post) @ ?F) ?F = ?b @ r @ post"
      by (simp add: rstrip_chars_def)
    moreover have "strip ([] @ ?b @ (r @ post)) = ?b"
      using r post b by (intro strip_core) (auto simp: fence_chars_not_space)
    ultimately show ?thesis by simp
  qed
  have ends: "endswith (?b @ (r @ post) @ ?F) ?F"
    using endswith_append [of "?b @ r @ post" ?F] by simp
  show ?thesis
  proof (cases "tag = []")
    case True
    have nj: "\<not> startswith ?raw (lit ''```json'')"
      using hd_inner inner_ne True by (cases ?inner) (auto simp: startswith_def lit_def is_space_def)
    have st: "startswith ?raw ?F" using startswith_append [of ?F "tag @ ?inner"] by simp
    show ?thesis
      unfolding raw strip_fences_def Let_def s1
      using nj st lead ends tail True by simp
  next
    case False
    with tag have tj: "tag = lit ''json''" by simp
    have j: "lit ''```'' @ tag = lit ''```json''" by (simp add: tj lit_def)
    have st: "startswith ?raw (lit ''```json'')"
      by (simp add: startswith_def tj lit_def)
    show ?thesis
      unfolding raw strip_fences_def Let_def s1
      using st lead ends tail j by simp
  qed
qed

lemma fenced_slice:
  assumes t: "object_text t"
    and pre: "\<forall>c \<in> set pre. is_space c" and post: "\<forall>c \<in> set post. is_space c"
    and tag: "tag = lit ''json'' \<or> tag = []"
  shows "slice_fences (fenced tag pre t post) = strip t"
proof -
  let ?F = "lit ''```''"
  let ?b = "strip t"
  from strip_decompose [of t] obtain l r where
    dec: "t = l @ ?b @ r" and l: "\<forall>c \<in> set l. is_space c" and r: "\<forall>c \<in> set r. is_space c"
    by blast
  from t have b: "?b \<noteq> []" "hd ?b = 123" "last ?b = 125" by (simp_all add: object_text_def)
  let ?inner = "(pre @ l) @ (?b @ (r @ post) @ ?F)"
  let ?raw = "?F @ tag @ ?inner"
  let ?c = "?b @ (r @ post) @ ?F"
  have raw: "fenced tag pre t post = ?raw"
    by (subst dec) (simp add: fenced_def)
  have s1: "strip ?raw = ?raw"
    using strip_core [of "[]" "[]" ?raw] by (simp add: lit_def fence_chars_not_space)
  have hd_inner: "hd ?inner = 123 \<or> is_space (hd ?inner)"
  proof (cases "pre @ l")
    case Nil
    then show ?thesis using b by simp
  next
    case (Cons a list)
    then have "a \<in> set (pre @ l)" by simp
    then have "is_space a" using pre l by auto
    then show ?thesis using Cons by simp
  qed
  have inner_ne: "?inner \<noteq> []" using b by simp
  have lead: "strip (drop (length (?F @ tag)) ?raw) = ?c"
  proof -
    have "drop (length (?F @ tag)) ((?F @ tag) @ ?inner) = ?inner"
      by (simp only: append_eq_conv_conj drop_append length_append) simp
    then have "drop (length (?F @ tag)) ?raw = ?inner" by simp
    moreover have "strip ((pre @ l) @ ?c @ []) = ?c"
      using pre l b by (intro strip_core) (auto simp: lit_def fence_chars_not_space)
    ultimately show ?thesis by simp
  qed
  have tail: "strip (take (length ?c - 3) ?c) = ?b"
  proof -
    have "take (length ?c - 3) ((?b @ r @ post) @ ?F) = ?b @ r @ post"
      by (simp add: lit_def)
    then have "take (length ?c - 3) ?c = ?b @ r @ post" by simp
    moreover have "strip ([] @ ?b @ (r @ post)) = ?b"
      using r post b by (intro strip_core) (auto simp: fence_chars_not_space)
    ultimately show ?thesis by simp
  qed
  have ends: "endswith ?c ?F"
    using endswith_append [of "?b @ r @ post" ?F] by simp
  show ?thesis
  proof (cases "tag = []")
    case True
    have nj: "\<not> startswith ?raw (lit ''```json'')"
      using hd_inner inner_ne True by (cases ?inner) (auto simp: startswith_def lit_def is_space_def)
    have st: "startswith ?raw ?F" using startswith_append [of ?F "tag @ ?inner"] by simp
    show ?thesis
      unfolding raw slice_fences_def Let_def s1
      using nj st lead ends tail True by simp
  next
    case False
    with tag have tj: "tag = lit ''json''" by simp
    have j: "lit ''```'' @ tag = lit ''```json''" by (simp add: tj lit_def)
    have st: "startswith ?raw (lit ''```json'')"
      by (simp add: startswith_def tj lit_def)
    show ?thesis
      unfolding raw slice_fences_def Let_def s1
      using st lead ends tail j by simp
  qed
qed

section \<open>Quality check: the escape pattern\<close>

lemma rx_width_str: "rx_width (rx_str s) = (length s, Some (length s))"
  by (induction s) auto

lemma field_pattern_rejected: "\<not> rx_compiles (field_pattern name)"
  by (simp add: field_pattern_def rx_width_str)

lemma escape_pattern_rejected: "\<not> rx_compiles escape_pattern"
  by (simp add: escape_pattern_def field_pattern_rejected)

lemma clean_quotes_and_escape_raises: "clean_quotes_and_escape E content = Inl ReError"
  by (simp add: clean_quotes_and_escape_def re_sub_def escape_pattern_rejected)

text \<open>
  C8. The claim says that \<open>check_translation_chunk\<close> never raises on a malformed response
  and returns the failure marker. The look-behind of the escape pattern has a width of 15
  or 16 code points, \<open>re.sub\<close> refuses it, and \<open>clean_quotes_and_escape\<close> raises
  \<open>re.error\<close> before any parse is tried: whatever text the Translation Client answers,
  \<open>check_translation_chunk\<close> raises.
\<close>

theorem check_translation_chunk_raises:
  "decode_review E lang raw w = Inl ReError
   \<and> check_translation_chunk E en_chunk translated_chunk lang w =
       (case llm E (calls w) (Review lang en_chunk translated_chunk) of
          Inl e \<Rightarrow> Inl e
        | Inr raw \<Rightarrow> Inl ReError)"
  by (simp add: check_translation_chunk_def decode_review_def clean_quotes_and_escape_raises
      split: sum.splits)

text \<open>
  C7. Let \<open>t\<close> be the text of a JSON object that \<open>json.loads\<close> decodes to \<open>J\<close>, and
  take it wrapped in a fenced code block, tagged \<open>json\<close> or untagged. In the bulk and sync
  scripts the wrapped text and \<open>t\<close> itself both decode to \<open>J\<close>. In the checker, the
  fences come off both the same way, leaving the text of the object, but
  \<open>clean_quotes_and_escape\<close> then raises for the wrapped text and for \<open>t\<close> alike, so no
  parsed structure is returned there.
\<close>

theorem fenced_object_decoded:
  assumes "object_text t"
    and "\<forall>c \<in> set pre. is_space c" and "\<forall>c \<in> set post. is_space c"
    and "tag = lit ''json'' \<or> tag = []"
    and "loads E (strip t) = Some J"
  shows "decode_translation E (fenced tag pre t post) = Inr J
       \<and> decode_translation E t = Inr J
       \<and> slice_fences (fenced tag pre t post) = strip t
       \<and> slice_fences t = strip t
       \<and> decode_review E lang (fenced tag pre t post) w = Inl ReError
       \<and> decode_review E lang t w = Inl ReError"
proof -
  have 1: "strip_fences (fenced tag pre t post) = strip t"
    by (rule fenced_translate [OF assms(1-4)])
  have 2: "strip_fences t = strip t"
    by (rule strip_fences_plain [OF assms(1)])
  have 3: "slice_fences (fenced tag pre t post) = strip t"
    by (rule fenced_slice [OF assms(1-4)])
  have 4: "slice_fences t = strip t"
    by (rule slice_fences_plain [OF assms(1)])
  have 5: "decode_translation E (fenced tag pre t post) = Inr J"
    using assms(5) by (simp add: decode_translation_def 1)
  have 6: "decode_translation E t = Inr J"
    using assms(5) by (simp add: decode_translation_def 2)
  have 7: "decode_review E lang raw w = Inl ReError" for raw
    by (simp add: decode_review_def clean_quotes_and_escape_raises)
  from 5 6 3 4 7 show ?thesis by simp
qed

theorem fenced_object_decoded_witness:
  "decode_translation
      (simulated_env (\<lambda>n. False) (\<lambda>s. if s = lit ''{}'' then Some (JObj []) else None))
      (fenced (lit ''json'') [10] (lit ''{}'') [10]) = Inr (JObj [])
   \<and> decode_translation
      (simulated_env (\<lambda>n. False) (\<lambda>s. if s = lit ''{}'' then Some (JObj []) else None))
      (fenced [] [10] (lit ''{}'') [10]) = Inr (JObj [])
   \<and> decode_translation
      (simulated_env (\<lambda>n. False) (\<lambda>s. if s = lit ''{}'' then Some (JObj []) else None))
      (lit ''{}'') = Inr (JObj [])
   \<and> slice_fences (fenced (lit ''json'') [10] (lit ''{}'') [10]) = lit ''{}''
   \<and> decode_review
      (simulated_env (\<lambda>n. False) (\<lambda>s. if s = lit ''{}'' then Some (JObj []) else None))
      (lit ''fr'') (fenced (lit ''json'') [10] (lit ''{}'') [10]) (world_with []) = Inl ReError"
proof -
  let ?E = "simulated_env (\<lambda>n. False) (\<lambda>s. if s = lit ''{}'' then Some (JObj []) else None)"
  have st: "strip (lit ''{}'') = lit ''{}''"
    by (simp add: strip_def lit_def is_space_def)
  have t: "object_text (lit ''{}'')"
    unfolding object_text_def st by (simp add: lit_def)
  have sp: "\<forall>c \<in> set [10]. is_space c" by (simp add: is_space_def)
  have ld: "loads ?E (strip (lit ''{}'')) = Some (JObj [])"
    unfolding st by (simp add: simulated_env_def)
  have j: "lit ''json'' = lit ''json'' \<or> lit ''json'' = []" by simp
  have n: "([]::pystr) = lit ''json'' \<or> ([]::pystr) = []" by simp
  note tagged = fenced_object_decoded [OF t sp sp j ld, of "lit ''fr''" "world_with []"]
  note untagged = fenced_object_decoded [OF t sp sp n ld, of "lit ''fr''" "world_with []"]
  have a: "decode_translation ?E (fenced (lit ''json'') [10] (lit ''{}'') [10]) = Inr (JObj [])"
    using tagged by blast
  have b: "decode_translation ?E (fenced [] [10] (lit ''{}'') [10]) = Inr (JObj [])"
    using untagged by blast
  have c: "decode_translation ?E (lit ''{}'') = Inr (JObj [])"
    using tagged by blast
  have d: "slice_fences (fenced (lit ''json'') [10] (lit ''{}'') [10]) = lit ''{}''"
    using tagged unfolding st by blast
  have e: "decode_review ?E (lit ''fr'') (fenced (lit ''json'') [10] (lit ''{}'') [10]) (world_with [])
             = Inl ReError"
    using tagged by blast
  from a b c d e show ?thesis by blast
qed

section \<open>Chunk loops: properties\<close>






lemma write_file_simps [simp]:
  "files (write_file w p c) = (files w)(p \<mapsto> c)"
  "ops (write_file w p c) = ops w @ [Write p c]"
  "console (write_file w p c) = console w"
  "calls (write_file w p c) = calls w"
  by (simp_all add: write_file_def)

lemma print_simps [simp]:
  "files (print w m) = files w"
  "ops (print w m) = ops w"
  "console (print w m) = console w @ [m]"
  "calls (print w m) = calls w"
  by (simp_all add: print_def)

lemma remove_file_simps [simp]:
  "files (remove_file w p) = (files w)(p := None)"
  "ops (remove_file w p) = ops w @ [Remove p]"
  "console (remove_file w p) = console w"
  "calls (remove_file w p) = calls w"
  by (simp_all add: remove_file_def)

lemma skip_chunk_simps [simp]:
  "files (skip_chunk w folder lang idx t e) = (files w)(error_log_path folder lang idx \<mapsto> ErrorText e)"
  "ops (skip_chunk w folder lang idx t e) = ops w @ [Write (error_log_path folder lang idx) (ErrorText e)]"
  "console (skip_chunk w folder lang idx t e) = console w @ [SkippingChunk lang (idx + 1) t e]"
  "calls (skip_chunk w folder lang idx t e) = calls w"
  by (simp_all add: skip_chunk_def)

















lemma finish_file_calls [simp]: "calls (finish_file folder lang w td) = calls w"
  by (simp add: finish_file_def Let_def)














section \<open>The Locale File after a locale is processed\<close>












section \<open>The String Table after a sync run\<close>















section \<open>Quality check: the Locale File\<close>











section \<open>The merge step: keys of a response\<close>





















end
